theory Spec2Isabelle
  imports Main "HOL-Library.Char_ord" "HOL-Library.List_Lexorder"
begin

section \<open>Calendar digest pipeline of extractEvents.py\<close>

text \<open>
  A shallow embedding of \<^verbatim>\<open>extractEvents.py\<close>: the per-file extraction loop
  \<^verbatim>\<open>extract_recurring_events_ics\<close>, the exact-date filter, the summarizer wrapper, the
  digest formatter and the script body.

  The libraries the script calls are inputs of the model: the outcome of reading and
  parsing a file, the lazy sequence produced by \<^verbatim>\<open>recurring_ical_events\<close>, the
  timezone database, the wall clock, the moment the alarm fires and the answer of the
  language model are data given to the functions below. The \<^verbatim>\<open>DEBUG\<close> prints carry no
  data flow and are left out; the two unconditional prints of the extraction loop are kept.
\<close>

subsection \<open>Exceptions\<close>

text \<open>Every exception below is a subclass of Python's \<^verbatim>\<open>Exception\<close>.\<close>

datatype exn =
    TimeoutError
  | AttributeError
  | OverflowError
  | UnboundLocalError
  | UnknownTimeZoneError
  | ValueError
  | OSError
  | LibraryError string

subsection \<open>Dates and points in time\<close>

text \<open>
  A \<^verbatim>\<open>date\<close> is its proleptic Gregorian ordinal (\<^verbatim>\<open>date.toordinal()\<close>, 1 for
  0001-01-01): comparing dates compares ordinals and adding \<^verbatim>\<open>timedelta(days=n)\<close>
  adds \<open>n\<close>. A \<^verbatim>\<open>time\<close> without zone is the number of microseconds since midnight.
  A \<^verbatim>\<open>datetime\<close> is the wall clock reading in microseconds since 0001-01-01T00:00:00
  together with its \<^verbatim>\<open>tzinfo\<close>; \<^verbatim>\<open>.date()\<close> and \<^verbatim>\<open>.time()\<close> are quotient
  and remainder by the length of a day, so every value is a valid reading.
  The \<^verbatim>\<open>tzinfo\<close> of an aware value records the zone name and the value of
  \<^verbatim>\<open>utcoffset()\<close> in seconds.
\<close>

definition US_PER_SECOND :: int where
  "US_PER_SECOND = 1000000"

definition US_PER_DAY :: int where
  "US_PER_DAY = 86400000000"

definition MAXORDINAL :: int where
  "MAXORDINAL = 3652059"

definition time_min :: int where
  "time_min = 0"

definition time_max :: int where
  "time_max = 86399999999"

record tzinfo =
  tz_name :: string
  tz_utcoffset :: int

record pydatetime =
  dt_wall :: int
  dt_tzinfo :: "tzinfo option"

definition UTC :: tzinfo where
  "UTC = \<lparr>tz_name = ''UTC'', tz_utcoffset = 0\<rparr>"

definition date_of :: "pydatetime \<Rightarrow> int" where
  "date_of dt = dt_wall dt div US_PER_DAY + 1"

definition time_of :: "pydatetime \<Rightarrow> int" where
  "time_of dt = dt_wall dt mod US_PER_DAY"

text \<open>\<^verbatim>\<open>datetime.combine(d, t)\<close>: a naive reading.\<close>

definition combine :: "int \<Rightarrow> int \<Rightarrow> pydatetime" where
  "combine d t = \<lparr>dt_wall = (d - 1) * US_PER_DAY + t, dt_tzinfo = None\<rparr>"

definition replace_tzinfo :: "pydatetime \<Rightarrow> tzinfo \<Rightarrow> pydatetime" where
  "replace_tzinfo dt tz = dt\<lparr>dt_tzinfo := Some tz\<rparr>"

text \<open>
  \<^verbatim>\<open>_ymd2ord\<close> of CPython's \<^verbatim>\<open>datetime\<close>, used to read the dates written
  as year, month and day.
\<close>

definition is_leap :: "int \<Rightarrow> bool" where
  "is_leap y = (y mod 4 = 0 \<and> (y mod 100 \<noteq> 0 \<or> y mod 400 = 0))"

definition days_before_year :: "int \<Rightarrow> int" where
  "days_before_year year =
     (let y = year - 1 in y * 365 + y div 4 - y div 100 + y div 400)"

definition days_in_month :: "int \<Rightarrow> int \<Rightarrow> int" where
  "days_in_month year month =
     (if month = 2 then (if is_leap year then 29 else 28)
      else if month = 4 \<or> month = 6 \<or> month = 9 \<or> month = 11 then 30
      else 31)"

definition days_before_month :: "int \<Rightarrow> int \<Rightarrow> int" where
  "days_before_month year month =
     [0, 31, 59, 90, 120, 151, 181, 212, 243, 273, 304, 334] ! nat (month - 1)
       + (if month > 2 \<and> is_leap year then 1 else 0)"

definition ymd2ord :: "int \<Rightarrow> int \<Rightarrow> int \<Rightarrow> int" where
  "ymd2ord year month day =
     days_before_year year + days_before_month year month + day"

definition mk_datetime ::
  "int \<Rightarrow> int \<Rightarrow> int \<Rightarrow> int \<Rightarrow> int \<Rightarrow> int \<Rightarrow> int \<Rightarrow> tzinfo option \<Rightarrow> pydatetime" where
  "mk_datetime year month day hour minute second microsecond tz =
     \<lparr>dt_wall = (ymd2ord year month day - 1) * US_PER_DAY
                 + ((hour * 60 + minute) * 60 + second) * US_PER_SECOND + microsecond,
      dt_tzinfo = tz\<rparr>"

subsection \<open>Time zones and the environment\<close>

text \<open>
  A zone of the timezone database gives the offset from UTC, in seconds, in force at a
  UTC reading. The environment of a run holds the database (\<^verbatim>\<open>pytz.timezone\<close>, which
  raises on an unknown name) and the offset the operating system assigns to a naive local
  reading (\<^verbatim>\<open>astimezone\<close> presumes a naive value to be in system local time).
\<close>

record zone =
  zone_name :: string
  zone_utcoffset :: "int \<Rightarrow> int"

record env =
  tzdb :: "string \<Rightarrow> zone option"
  sys_utcoffset :: "int \<Rightarrow> int"

definition in_range :: "int \<Rightarrow> bool" where
  "in_range w = (0 \<le> w \<and> w < MAXORDINAL * US_PER_DAY)"

definition utcoffset_of :: "env \<Rightarrow> pydatetime \<Rightarrow> int" where
  "utcoffset_of e dt =
     (case dt_tzinfo dt of
        None \<Rightarrow> sys_utcoffset e (dt_wall dt)
      | Some t \<Rightarrow> tz_utcoffset t)"

definition utc_of :: "env \<Rightarrow> pydatetime \<Rightarrow> int" where
  "utc_of e dt = dt_wall dt - utcoffset_of e dt * US_PER_SECOND"

text \<open>
  \<^verbatim>\<open>dt.astimezone(tz)\<close>: subtract the value's own offset, then let the zone add the
  offset in force at that UTC reading; either step raises \<^verbatim>\<open>OverflowError\<close> when it
  leaves the years 1 to 9999. (Python returns a value that already carries the very
  \<^verbatim>\<open>tzinfo\<close> object asked for as it is; that is the result below whenever the value
  holds the offset in force.)
\<close>

definition astimezone :: "env \<Rightarrow> zone \<Rightarrow> pydatetime \<Rightarrow> exn + pydatetime" where
  "astimezone e tz dt =
     (let utc = utc_of e dt in
      if \<not> in_range utc then Inl OverflowError
      else
        let off = zone_utcoffset tz utc;
            loc = utc + off * US_PER_SECOND
        in if \<not> in_range loc then Inl OverflowError
           else Inr \<lparr>dt_wall = loc,
                     dt_tzinfo = Some \<lparr>tz_name = zone_name tz, tz_utcoffset = off\<rparr>\<rparr>)"

text \<open>
  Comparison of two aware values (\<^verbatim>\<open>a <= b\<close>) compares their UTC readings.
\<close>

definition instant :: "pydatetime \<Rightarrow> int" where
  "instant dt =
     dt_wall dt - (case dt_tzinfo dt of None \<Rightarrow> 0 | Some t \<Rightarrow> tz_utcoffset t) * US_PER_SECOND"

definition aware :: "pydatetime \<Rightarrow> bool" where
  "aware dt = (dt_tzinfo dt \<noteq> None)"

subsection \<open>Raw events and occurrences\<close>

text \<open>
  What the loop reads of an event yielded by the expansion: \<^verbatim>\<open>DTSTART\<close> and
  \<^verbatim>\<open>DTEND\<close> hold a \<^verbatim>\<open>date\<close> or a \<^verbatim>\<open>datetime\<close>, the other keys may be absent.
\<close>

datatype dt_value = DateV int | DateTimeV pydatetime

record raw_event =
  SUMMARY :: "string option"
  LOCATION :: "string option"
  DTSTART :: dt_value
  DTEND :: "dt_value option"
  RRULE :: bool

record occurrence =
  title :: string
  location :: string
  start_time :: pydatetime
  end_time :: pydatetime
  is_recurring :: bool

definition DAYS_TO_INCLUDE :: int where
  "DAYS_TO_INCLUDE = 1"

subsection \<open>Normalization of one event (lines 111 to 131)\<close>

text \<open>
  Lines 118 to 120: when the start is a \<^verbatim>\<open>datetime\<close>, start and end are both sent
  through \<^verbatim>\<open>astimezone\<close>; a \<^verbatim>\<open>date\<close> has no such method.
\<close>

definition convert_to_target ::
  "env \<Rightarrow> zone \<Rightarrow> dt_value \<Rightarrow> dt_value \<Rightarrow> exn + (dt_value \<times> dt_value)" where
  "convert_to_target e tz start_v end_v =
     (case start_v of
        DateV d \<Rightarrow> Inr (start_v, end_v)
      | DateTimeV s \<Rightarrow>
          (case astimezone e tz s of
             Inl x \<Rightarrow> Inl x
           | Inr s' \<Rightarrow>
               (case end_v of
                  DateV d \<Rightarrow> Inl AttributeError
                | DateTimeV t \<Rightarrow>
                    (case astimezone e tz t of
                       Inl x \<Rightarrow> Inl x
                     | Inr t' \<Rightarrow> Inr (DateTimeV s', DateTimeV t')))))"

text \<open>Lines 125 to 127 and 129 to 131: a bare date becomes a day boundary in UTC.\<close>

definition all_day_start :: "dt_value \<Rightarrow> pydatetime" where
  "all_day_start v =
     (case v of
        DateV d \<Rightarrow> replace_tzinfo (combine d time_min) UTC
      | DateTimeV s \<Rightarrow> s)"

definition all_day_end :: "dt_value \<Rightarrow> pydatetime" where
  "all_day_end v =
     (case v of
        DateV d \<Rightarrow> replace_tzinfo (combine d time_max) UTC
      | DateTimeV t \<Rightarrow> t)"

definition normalize_event :: "env \<Rightarrow> zone \<Rightarrow> raw_event \<Rightarrow> exn + (pydatetime \<times> pydatetime)" where
  "normalize_event e tz event =
     (let start_v = DTSTART event;
          end_v = (case DTEND event of Some v \<Rightarrow> v | None \<Rightarrow> start_v)
      in case convert_to_target e tz start_v end_v of
           Inl x \<Rightarrow> Inl x
         | Inr (start_v', end_v') \<Rightarrow> Inr (all_day_start start_v', all_day_end end_v'))"

definition make_occurrence :: "raw_event \<Rightarrow> pydatetime \<Rightarrow> pydatetime \<Rightarrow> occurrence" where
  "make_occurrence event s t =
     \<lparr>title = (case SUMMARY event of Some x \<Rightarrow> x | None \<Rightarrow> ''No Title''),
      location = (case LOCATION event of Some x \<Rightarrow> x | None \<Rightarrow> ''''),
      start_time = s,
      end_time = t,
      is_recurring = RRULE event\<rparr>"

subsection \<open>The loop over one file's events (lines 107 to 148)\<close>

text \<open>
  The expansion is a lazy sequence: pulling the next element either yields an event or
  raises, and the alarm's \<^verbatim>\<open>TimeoutError\<close> (\<^verbatim>\<open>timeout_handler\<close>) surfaces the same
  way, between two events. The loop returns the list built so far and the exception that
  ended it, if any; \<^verbatim>\<open>break\<close> ends it without one.
\<close>

datatype stream_item = Yield raw_event | Raise exn

fun for_events ::
  "env \<Rightarrow> zone \<Rightarrow> int \<Rightarrow> stream_item list \<Rightarrow> occurrence list \<Rightarrow> occurrence list \<times> exn option" where
  "for_events e tz end_date [] acc = (acc, None)"
| "for_events e tz end_date (Raise x # rest) acc = (acc, Some x)"
| "for_events e tz end_date (Yield event # rest) acc =
     (case normalize_event e tz event of
        Inl x \<Rightarrow> (acc, Some x)
      | Inr (s, t) \<Rightarrow>
          if date_of s > end_date then (acc, None)
          else for_events e tz end_date rest (acc @ [make_occurrence event s t]))"

subsection \<open>The loop over the files (lines 79 to 162)\<close>

text \<open>
  A file as the run meets it: its path, the outcome of \<^verbatim>\<open>open\<close>, \<^verbatim>\<open>read\<close> and
  \<^verbatim>\<open>Calendar.from_ical\<close> (an exception or a calendar), and the UTC reading of the clock
  when line 89 runs. A parsed calendar is what
  \<^verbatim>\<open>recurring_ical_events.of(cal).after(current_date)\<close> does with it: building the
  query raises, or gives the lazy sequence.
\<close>

type_synonym calendar = "int \<Rightarrow> exn + stream_item list"

record file_input =
  fi_path :: string
  fi_parse :: "exn + calendar"
  fi_now :: int

text \<open>
  The state of the function: the two list variables (\<^verbatim>\<open>filtered_events\<close> is a local
  of the function, unbound until line 105 first runs), the pending alarm in seconds
  (0 when disarmed) and what the run did to the outside, in order: the files it opened
  for reading or for writing, what it wrote, and the lines it printed.
\<close>

datatype effect =
    Open string
  | Print_timeout string
  | Print_error string exn
  | Open_w string
  | Write string string
  | Print_written string

record state =
  all_events :: "occurrence list"
  filtered_events :: "occurrence list option"
  alarm :: nat
  trace :: "effect list"

definition init_state :: state where
  "init_state = \<lparr>all_events = [], filtered_events = None, alarm = 0, trace = []\<rparr>"

text \<open>Lines 99 to 148, the body of \<^verbatim>\<open>try\<close>.\<close>

definition try_body :: "env \<Rightarrow> zone \<Rightarrow> int \<Rightarrow> int \<Rightarrow> calendar \<Rightarrow> state \<Rightarrow> state \<times> exn option" where
  "try_body e tz current_date end_date cal st =
     (case cal current_date of
        Inl x \<Rightarrow> (st, Some x)
      | Inr items \<Rightarrow>
          (case for_events e tz end_date items [] of
             (fe, x) \<Rightarrow> (st\<lparr>filtered_events := Some fe\<rparr>, x)))"

text \<open>Lines 150 to 153, the two handlers.\<close>

definition handlers :: "string \<Rightarrow> state \<Rightarrow> exn option \<Rightarrow> state" where
  "handlers path st x =
     (case x of
        None \<Rightarrow> st
      | Some TimeoutError \<Rightarrow> st\<lparr>trace := trace st @ [Print_timeout path]\<rparr>
      | Some y \<Rightarrow> st\<lparr>trace := trace st @ [Print_error path y]\<rparr>)"

text \<open>Lines 82 to 157, one turn of the loop; \<open>Some x\<close> is an exception leaving the function.\<close>

definition process_file :: "env \<Rightarrow> string \<Rightarrow> state \<Rightarrow> file_input \<Rightarrow> state \<times> exn option" where
  "process_file e target_timezone st fi =
     (let st1 = st\<lparr>trace := trace st @ [Open (fi_path fi)]\<rparr> in
      case fi_parse fi of
        Inl x \<Rightarrow> (st1, Some x)
      | Inr cal \<Rightarrow>
          (case tzdb e target_timezone of
             None \<Rightarrow> (st1, Some UnknownTimeZoneError)
           | Some tz \<Rightarrow>
               let now = fi_now fi + zone_utcoffset tz (fi_now fi) * US_PER_SECOND;
                   current_date = now div US_PER_DAY + 1;
                   end_date = current_date + DAYS_TO_INCLUDE;
                   st2 = st1\<lparr>alarm := 5\<rparr>
               in case try_body e tz current_date end_date cal st2 of
                    (st3, x) \<Rightarrow>
                      let st4 = handlers (fi_path fi) st3 x;
                          st5 = st4\<lparr>alarm := 0\<rparr>
                      in (case filtered_events st5 of
                            None \<Rightarrow> (st5, Some UnboundLocalError)
                          | Some fe \<Rightarrow> (st5\<lparr>all_events := all_events st5 @ fe\<rparr>, None))))"

fun for_files :: "env \<Rightarrow> string \<Rightarrow> state \<Rightarrow> file_input list \<Rightarrow> state \<times> exn option" where
  "for_files e target_timezone st [] = (st, None)"
| "for_files e target_timezone st (fi # rest) =
     (case process_file e target_timezone st fi of
        (st', Some x) \<Rightarrow> (st', Some x)
      | (st', None) \<Rightarrow> for_files e target_timezone st' rest)"

definition default_timezone :: "string \<Rightarrow> string" where
  "default_timezone target_timezone =
     (if target_timezone = [] then ''America/Los_Angeles'' else target_timezone)"

definition extract_recurring_events_ics ::
  "env \<Rightarrow> file_input list \<Rightarrow> string \<Rightarrow> state \<times> (exn + occurrence list)" where
  "extract_recurring_events_ics e ical_file_paths target_timezone =
     (case for_files e (default_timezone target_timezone) init_state ical_file_paths of
        (st, Some x) \<Rightarrow> (st, Inl x)
      | (st, None) \<Rightarrow> (st, Inr (all_events st)))"

subsection \<open>Reading the target date (\<^verbatim>\<open>datetime.strptime(s, "%Y-%m-%d")\<close>)\<close>

text \<open>
  CPython turns the format into the regular expression
  \<^verbatim>\<open>(\d\d\d\d)-(1[0-2]|0[1-9]|[1-9])-(3[0-1]|[1-2]\d|0[1-9]|[1-9]| [1-9])\<close>,
  matches it at the start of the string, demands that the match ends where the string
  ends, and builds the date, which checks the year and the day of the month. Each failure
  is a \<^verbatim>\<open>ValueError\<close>. A group takes its first alternative that matches; since a
  \<^verbatim>\<open>-\<close> must follow the month no later alternative can succeed where an earlier one was
  taken, so trying them in order is what the backtracking matcher finds.
\<close>

definition cls :: "char \<Rightarrow> char \<Rightarrow> char \<Rightarrow> bool" where
  "cls lo hi c = (lo \<le> c \<and> c \<le> hi)"

definition digit :: "char \<Rightarrow> bool" where
  "digit c = cls (CHR ''0'') (CHR ''9'') c"

fun re1 :: "(char \<Rightarrow> bool) \<Rightarrow> string \<Rightarrow> (string \<times> string) option" where
  "re1 p (a # rest) = (if p a then Some ([a], rest) else None)"
| "re1 p [] = None"

fun re2 :: "(char \<Rightarrow> bool) \<Rightarrow> (char \<Rightarrow> bool) \<Rightarrow> string \<Rightarrow> (string \<times> string) option" where
  "re2 p q (a # b # rest) = (if p a \<and> q b then Some ([a, b], rest) else None)"
| "re2 p q [a] = None"
| "re2 p q [] = None"

fun first_match ::
  "(string \<Rightarrow> (string \<times> string) option) list \<Rightarrow> string \<Rightarrow> (string \<times> string) option" where
  "first_match [] s = None"
| "first_match (r # rs) s = (case r s of Some m \<Rightarrow> Some m | None \<Rightarrow> first_match rs s)"

fun re_Y :: "string \<Rightarrow> (string \<times> string) option" where
  "re_Y (a # b # c # d # rest) =
     (if digit a \<and> digit b \<and> digit c \<and> digit d then Some ([a, b, c, d], rest) else None)"
| "re_Y s = None"

definition re_m :: "string \<Rightarrow> (string \<times> string) option" where
  "re_m = first_match
     [re2 (\<lambda>c. c = CHR ''1'') (cls (CHR ''0'') (CHR ''2'')),
      re2 (\<lambda>c. c = CHR ''0'') (cls (CHR ''1'') (CHR ''9'')),
      re1 (cls (CHR ''1'') (CHR ''9''))]"

definition re_d :: "string \<Rightarrow> (string \<times> string) option" where
  "re_d = first_match
     [re2 (\<lambda>c. c = CHR ''3'') (cls (CHR ''0'') (CHR ''1'')),
      re2 (cls (CHR ''1'') (CHR ''2'')) digit,
      re2 (\<lambda>c. c = CHR ''0'') (cls (CHR ''1'') (CHR ''9'')),
      re1 (cls (CHR ''1'') (CHR ''9'')),
      re2 (\<lambda>c. c = CHR '' '') (cls (CHR ''1'') (CHR ''9''))]"

text \<open>\<^verbatim>\<open>int(text)\<close> on a matched group: decimal digits after optional blanks.\<close>

definition py_int :: "string \<Rightarrow> int" where
  "py_int s =
     foldl (\<lambda>n c. n * 10 + (int (of_char c) - 48)) 0 (dropWhile (\<lambda>c. c = CHR '' '') s)"

definition strptime_Ymd :: "string \<Rightarrow> exn + (int \<times> int \<times> int)" where
  "strptime_Ymd s =
     (case re_Y s of
        None \<Rightarrow> Inl ValueError
      | Some (ys, r1) \<Rightarrow>
          (case r1 of
             [] \<Rightarrow> Inl ValueError
           | c1 # r2 \<Rightarrow>
               if c1 \<noteq> CHR ''-'' then Inl ValueError
               else (case re_m r2 of
                  None \<Rightarrow> Inl ValueError
                | Some (ms, r3) \<Rightarrow>
                    (case r3 of
                       [] \<Rightarrow> Inl ValueError
                     | c2 # r4 \<Rightarrow>
                         if c2 \<noteq> CHR ''-'' then Inl ValueError
                         else (case re_d r4 of
                            None \<Rightarrow> Inl ValueError
                          | Some (ds, r5) \<Rightarrow>
                              if r5 \<noteq> [] then Inl ValueError
                              else
                                let year = py_int ys; month = py_int ms; day = py_int ds
                                in if year < 1 \<or> day > days_in_month year month
                                   then Inl ValueError
                                   else Inr (year, month, day))))))"

subsection \<open>The exact-date filter (lines 164 to 181)\<close>

definition filter_events_by_date :: "occurrence list \<Rightarrow> string \<Rightarrow> exn + occurrence list" where
  "filter_events_by_date events filter_date =
     (case strptime_Ymd filter_date of
        Inl x \<Rightarrow> Inl x
      | Inr (y, m, d) \<Rightarrow>
          Inr (filter (\<lambda>event. date_of (start_time event) = ymd2ord y m d) events))"

subsection \<open>The summarizer wrapper (lines 183 to 215)\<close>

text \<open>
  \<^verbatim>\<open>s[:n]\<close> for an integer \<open>n\<close>: the first \<open>n\<close> characters, or all but the last
  \<open>-n\<close> when \<open>n\<close> is negative. \<^verbatim>\<open>s.strip()\<close> removes white space at both ends
  (the white space of Latin-1; a \<open>char\<close> stands for one code point below 256).
\<close>

definition py_slice_to :: "string \<Rightarrow> int \<Rightarrow> string" where
  "py_slice_to s n =
     (if 0 \<le> n then take (nat n) s else take (nat (int (length s) + n)) s)"

definition py_isspace :: "char \<Rightarrow> bool" where
  "py_isspace c =
     (let k = (of_char c :: nat)
      in (9 \<le> k \<and> k \<le> 13) \<or> (28 \<le> k \<and> k \<le> 32) \<or> k = 133 \<or> k = 160)"

definition py_strip :: "string \<Rightarrow> string" where
  "py_strip s = rev (dropWhile py_isspace (rev (dropWhile py_isspace s)))"

text \<open>
  The request to the language model is an input: given the title and the length put into
  the prompt, it raises or gives the text of the first choice. Everything from the request
  to \<^verbatim>\<open>.strip()\<close> is inside \<^verbatim>\<open>try\<close>.
\<close>

type_synonym completion = "string \<Rightarrow> int \<Rightarrow> exn + string"

definition summarize_with_gpt :: "completion \<Rightarrow> string \<Rightarrow> int \<Rightarrow> exn + string" where
  "summarize_with_gpt create title_text max_length =
     (case create title_text max_length of
        Inr content \<Rightarrow> Inr (py_slice_to (py_strip content) max_length)
      | Inl x \<Rightarrow> Inr (py_slice_to title_text max_length))"

subsection \<open>The digest (lines 217 to 243)\<close>

definition digit_char :: "int \<Rightarrow> char" where
  "digit_char d = ''0123456789'' ! nat d"

definition pad2 :: "int \<Rightarrow> string" where
  "pad2 n = [digit_char (n div 10), digit_char (n mod 10)]"

definition hour_of :: "pydatetime \<Rightarrow> int" where
  "hour_of dt = time_of dt div 3600000000"

definition minute_of :: "pydatetime \<Rightarrow> int" where
  "minute_of dt = time_of dt div 60000000 mod 60"

text \<open>\<^verbatim>\<open>dt.strftime("%H:%M")\<close>.\<close>

definition strftime_HM :: "pydatetime \<Rightarrow> string" where
  "strftime_HM dt = pad2 (hour_of dt) @ '':'' @ pad2 (minute_of dt)"

definition month_name :: "int \<Rightarrow> string" where
  "month_name m =
     [''January'', ''February'', ''March'', ''April'', ''May'', ''June'', ''July'',
      ''August'', ''September'', ''October'', ''November'', ''December''] ! nat (m - 1)"

text \<open>\<^verbatim>\<open>strftime("%B %d")\<close> in the C locale, on the date \<^verbatim>\<open>strptime\<close> has read.\<close>

definition strftime_Bd :: "int \<times> int \<times> int \<Rightarrow> string" where
  "strftime_Bd ymd = (case ymd of (y, m, d) \<Rightarrow> month_name m @ '' '' @ pad2 d)"

text \<open>\<^verbatim>\<open>.upper()\<close>, on the letters a month name can hold.\<close>

definition py_upper :: "string \<Rightarrow> string" where
  "py_upper s =
     map (\<lambda>c. case map_of (zip ''abcdefghijklmnopqrstuvwxyz'' ''ABCDEFGHIJKLMNOPQRSTUVWXYZ'') c of
                 Some u \<Rightarrow> u
               | None \<Rightarrow> c) s"

definition newline :: string where
  "newline = [CHR 0x0A]"

fun join :: "string \<Rightarrow> string list \<Rightarrow> string" where
  "join sep [] = []"
| "join sep [x] = x"
| "join sep (x # y # ys) = x @ sep @ join sep (y # ys)"

text \<open>
  The language model may answer the same request differently each time, so the loop
  numbers its requests: \<open>gpt k\<close> is the outcome of the \<open>k\<close>-th request of the run.
\<close>

fun for_digest ::
  "(nat \<Rightarrow> completion) \<Rightarrow> nat \<Rightarrow> occurrence list \<Rightarrow> string list \<Rightarrow> string list
     \<Rightarrow> exn + (string list \<times> string list)" where
  "for_digest gpt k [] all_day_events timed_events = Inr (all_day_events, timed_events)"
| "for_digest gpt k (event # rest) all_day_events timed_events =
     (if time_of (start_time event) = time_min \<and> time_of (end_time event) = time_max then
        (case summarize_with_gpt (gpt k) (title event) 22 of
           Inl x \<Rightarrow> Inl x
         | Inr summary \<Rightarrow>
             for_digest gpt (Suc k) rest (all_day_events @ [summary]) timed_events)
      else
        (case summarize_with_gpt (gpt k) (title event) 16 of
           Inl x \<Rightarrow> Inl x
         | Inr summary \<Rightarrow>
             for_digest gpt (Suc k) rest all_day_events
               (timed_events @ [strftime_HM (start_time event) @ '' '' @ summary])))"

definition format_events_for_text_file ::
  "(nat \<Rightarrow> completion) \<Rightarrow> occurrence list \<Rightarrow> string \<Rightarrow> exn + string" where
  "format_events_for_text_file gpt events filter_date =
     (case for_digest gpt 0 events [] [] of
        Inl x \<Rightarrow> Inl x
      | Inr (all_day_events, timed_events) \<Rightarrow>
          (let formatted_events = sort timed_events @ sort all_day_events
           in (case strptime_Ymd filter_date of
                 Inl x \<Rightarrow> Inl x
               | Inr ymd \<Rightarrow>
                   Inr (''--- '' @ py_upper (strftime_Bd ymd) @ '' ---'' @ newline
                        @ join newline formatted_events))))"

subsection \<open>The script body (lines 245 to 305)\<close>

text \<open>
  The arguments are taken as parsed. The \<^verbatim>\<open>ics\<close> library (building the events, then
  serializing the calendar) and the opening of the two output files are inputs: each
  raises or succeeds. The run is its trace and the exception that ends it, if any.
\<close>

record outside =
  make_calendar :: "occurrence list \<Rightarrow> exn option"
  serialize :: "occurrence list \<Rightarrow> exn + string"
  open_w :: "string \<Rightarrow> exn option"

text \<open>\<^verbatim>\<open>os.path.join(a, b)\<close> for a relative \<open>b\<close>, on POSIX.\<close>

definition path_join :: "string \<Rightarrow> string \<Rightarrow> string" where
  "path_join a b =
     (if a = [] then b else if last a = CHR ''/'' then a @ b else a @ ''/'' @ b)"

definition write_ics ::
  "outside \<Rightarrow> occurrence list \<Rightarrow> string \<Rightarrow> effect list \<Rightarrow> effect list \<times> exn option" where
  "write_ics out sorted_events output tr =
     (let new_ics_filename = path_join output ''combined_expanded.ics'' in
      case make_calendar out sorted_events of
        Some x \<Rightarrow> (tr, Some x)
      | None \<Rightarrow>
          (case open_w out new_ics_filename of
             Some x \<Rightarrow> (tr, Some x)
           | None \<Rightarrow>
               (case serialize out sorted_events of
                  Inl x \<Rightarrow> (tr @ [Open_w new_ics_filename], Some x)
                | Inr doc \<Rightarrow>
                    (tr @ [Open_w new_ics_filename, Write new_ics_filename doc,
                           Print_written new_ics_filename], None))))"

definition write_text ::
  "outside \<Rightarrow> (nat \<Rightarrow> completion) \<Rightarrow> occurrence list \<Rightarrow> string \<Rightarrow> string \<Rightarrow> effect list
     \<Rightarrow> effect list \<times> exn option" where
  "write_text out gpt sorted_events date output tr =
     (let text_filename = path_join output ''combined_events.txt'' in
      case format_events_for_text_file gpt sorted_events date of
        Inl x \<Rightarrow> (tr, Some x)
      | Inr formatted_events \<Rightarrow>
          (case open_w out text_filename of
             Some x \<Rightarrow> (tr, Some x)
           | None \<Rightarrow>
               (tr @ [Open_w text_filename, Write text_filename formatted_events,
                      Print_written text_filename], None)))"

definition main ::
  "env \<Rightarrow> (nat \<Rightarrow> completion) \<Rightarrow> outside \<Rightarrow> file_input list \<Rightarrow> string \<Rightarrow> string \<Rightarrow> string
     \<Rightarrow> effect list \<times> exn option" where
  "main e gpt out ics_files date timezone output =
     (case extract_recurring_events_ics e ics_files timezone of
        (st, Inl x) \<Rightarrow> (trace st, Some x)
      | (st, Inr expanded_cal) \<Rightarrow>
          (case filter_events_by_date expanded_cal date of
             Inl x \<Rightarrow> (trace st, Some x)
           | Inr filtered \<Rightarrow>
               let sorted_events = sort_key (\<lambda>x. instant (start_time x)) filtered
               in (case write_ics out sorted_events output (trace st) of
                     (tr, Some x) \<Rightarrow> (tr, Some x)
                   | (tr, None) \<Rightarrow> write_text out gpt sorted_events date output tr)))"

subsection \<open>Sample inputs\<close>

text \<open>
  A database with one zone eight hours behind UTC, a clock reading 2024-03-05T17:00Z
  (09:00 on March 5 in that zone, so the window ends on March 6), and a few events.
\<close>

definition ex_zone :: zone where
  "ex_zone = \<lparr>zone_name = ''America/Los_Angeles'', zone_utcoffset = (\<lambda>u. - 28800)\<rparr>"

definition ex_env :: env where
  "ex_env = \<lparr>tzdb = (\<lambda>n. if n = ''America/Los_Angeles'' then Some ex_zone else None),
             sys_utcoffset = (\<lambda>w. 0)\<rparr>"

definition ex_pst :: tzinfo where
  "ex_pst = \<lparr>tz_name = ''America/Los_Angeles'', tz_utcoffset = - 28800\<rparr>"

definition ex_now :: int where
  "ex_now = dt_wall (mk_datetime 2024 3 5 17 0 0 0 None)"

definition ex_standup :: raw_event where
  "ex_standup =
     \<lparr>SUMMARY = Some ''Standup'', LOCATION = None,
      DTSTART = DateTimeV (mk_datetime 2024 3 5 17 0 0 0 (Some UTC)),
      DTEND = Some (DateTimeV (mk_datetime 2024 3 5 17 30 0 0 (Some UTC))),
      RRULE = True\<rparr>"

definition ex_standup_occ :: occurrence where
  "ex_standup_occ =
     \<lparr>title = ''Standup'', location = [],
      start_time = mk_datetime 2024 3 5 9 0 0 0 (Some ex_pst),
      end_time = mk_datetime 2024 3 5 9 30 0 0 (Some ex_pst),
      is_recurring = True\<rparr>"

definition ex_offsite :: raw_event where
  "ex_offsite =
     \<lparr>SUMMARY = Some ''Team Offsite'', LOCATION = Some ''HQ'',
      DTSTART = DateV (ymd2ord 2024 3 5), DTEND = None, RRULE = False\<rparr>"

definition ex_later :: raw_event where
  "ex_later =
     \<lparr>SUMMARY = Some ''Review'', LOCATION = None,
      DTSTART = DateTimeV (mk_datetime 2024 3 8 17 0 0 0 (Some UTC)),
      DTEND = None, RRULE = False\<rparr>"

definition ex_reversed :: raw_event where
  "ex_reversed =
     \<lparr>SUMMARY = Some ''Fair'', LOCATION = None,
      DTSTART = DateV (ymd2ord 2024 3 6), DTEND = Some (DateV (ymd2ord 2024 3 5)),
      RRULE = False\<rparr>"

definition ex_file_a :: file_input where
  "ex_file_a =
     \<lparr>fi_path = ''a.ics'', fi_parse = Inr (\<lambda>d. Inr [Yield ex_standup]), fi_now = ex_now\<rparr>"

text \<open>A file for which the alarm fires while the query is still being built.\<close>

definition ex_file_slow :: file_input where
  "ex_file_slow =
     \<lparr>fi_path = ''b.ics'', fi_parse = Inr (\<lambda>d. Inl TimeoutError), fi_now = ex_now\<rparr>"

definition ex_file_missing :: file_input where
  "ex_file_missing = \<lparr>fi_path = ''missing.ics'', fi_parse = Inl OSError, fi_now = ex_now\<rparr>"

definition ex_file_reversed :: file_input where
  "ex_file_reversed =
     \<lparr>fi_path = ''c.ics'', fi_parse = Inr (\<lambda>d. Inr [Yield ex_reversed]), fi_now = ex_now\<rparr>"

definition ex_gpt_down :: "nat \<Rightarrow> completion" where
  "ex_gpt_down = (\<lambda>k t n. Inl OSError)"

definition ex_outside :: outside where
  "ex_outside =
     \<lparr>make_calendar = (\<lambda>evs. None), serialize = (\<lambda>evs. Inr ''BEGIN:VCALENDAR''),
      open_w = (\<lambda>p. None)\<rparr>"

definition ex_offsite_occ :: occurrence where
  "ex_offsite_occ =
     \<lparr>title = ''Team Offsite'', location = ''HQ'',
      start_time = mk_datetime 2024 3 5 0 0 0 0 (Some UTC),
      end_time = mk_datetime 2024 3 5 23 59 59 999999 (Some UTC),
      is_recurring = False\<rparr>"

definition ex_reversed_occ :: occurrence where
  "ex_reversed_occ =
     \<lparr>title = ''Fair'', location = [],
      start_time = mk_datetime 2024 3 6 0 0 0 0 (Some UTC),
      end_time = mk_datetime 2024 3 5 23 59 59 999999 (Some UTC),
      is_recurring = False\<rparr>"

definition ex_file_two :: file_input where
  "ex_file_two =
     \<lparr>fi_path = ''two.ics'', fi_parse = Inr (\<lambda>d. Inr [Yield ex_offsite, Yield ex_standup]),
      fi_now = ex_now\<rparr>"

definition ex_run_occ :: occurrence where
  "ex_run_occ =
     \<lparr>title = ''Run'', location = [],
      start_time = mk_datetime 2024 3 5 7 30 0 0 (Some ex_pst),
      end_time = mk_datetime 2024 3 5 8 0 0 0 (Some ex_pst),
      is_recurring = False\<rparr>"

definition ex_lunch_occ :: occurrence where
  "ex_lunch_occ =
     \<lparr>title = ''Lunch with the whole team'', location = [],
      start_time = mk_datetime 2024 3 5 13 15 0 0 (Some ex_pst),
      end_time = mk_datetime 2024 3 5 14 0 0 0 (Some ex_pst),
      is_recurring = False\<rparr>"

definition ex_occ_a :: occurrence where
  "ex_occ_a =
     \<lparr>title = ''A'', location = [],
      start_time = mk_datetime 2024 3 5 9 0 30 0 (Some ex_pst),
      end_time = mk_datetime 2024 3 5 9 30 0 0 (Some ex_pst),
      is_recurring = False\<rparr>"

definition ex_occ_b :: occurrence where
  "ex_occ_b =
     \<lparr>title = ''B'', location = [],
      start_time = mk_datetime 2024 3 5 9 0 10 0 (Some ex_pst),
      end_time = mk_datetime 2024 3 5 9 30 0 0 (Some ex_pst),
      is_recurring = False\<rparr>"

subsection \<open>Conditions on the inputs\<close>

text \<open>
  A raw event is ordered when its end, if it has one, is of the same kind as its start (both
  dates or both points in time) and not earlier; a naive point in time is read in the
  system's zone, as \<^verbatim>\<open>astimezone\<close> reads it.
\<close>

definition raw_ordered :: "env \<Rightarrow> raw_event \<Rightarrow> bool" where
  "raw_ordered e ev =
     (case DTEND ev of
        None \<Rightarrow> True
      | Some v \<Rightarrow>
          (case DTSTART ev of
             DateV d \<Rightarrow> (case v of DateV d' \<Rightarrow> d \<le> d' | DateTimeV t \<Rightarrow> False)
           | DateTimeV s \<Rightarrow>
               (case v of DateV d' \<Rightarrow> False | DateTimeV t \<Rightarrow> utc_of e s \<le> utc_of e t)))"

definition well_timed :: "occurrence \<Rightarrow> bool" where
  "well_timed ev =
     (instant (start_time ev) \<le> instant (end_time ev)
      \<and> aware (start_time ev) \<and> aware (end_time ev))"

text \<open>
  A point in time can be converted into a zone when its UTC reading and its reading in the
  zone both lie in the years 1 to 9999.
\<close>

definition convertible :: "env \<Rightarrow> zone \<Rightarrow> pydatetime \<Rightarrow> bool" where
  "convertible e tz dt =
     (in_range (utc_of e dt)
      \<and> in_range (utc_of e dt + zone_utcoffset tz (utc_of e dt) * US_PER_SECOND))"

section \<open>Properties\<close>

subsection \<open>The extraction loop\<close>

text \<open>
  C1. The claim asks that a failure in one file neither contributes, duplicates nor removes
  occurrences of another file. The code does not keep it: \<^verbatim>\<open>filtered_events\<close> is
  bound inside \<^verbatim>\<open>try\<close>, after the query has been built, so when building the query
  of the second file times out the variable still holds the list of the first file, and
  line 157 appends that list a second time.
\<close>

theorem failed_query_repeats_previous_file:
  "extract_recurring_events_ics ex_env [ex_file_a, ex_file_slow] [] =
     (\<lparr>all_events = [ex_standup_occ, ex_standup_occ],
       filtered_events = Some [ex_standup_occ],
       alarm = 0,
       trace = [Open ''a.ics'', Open ''b.ics'', Print_timeout ''b.ics'']\<rparr>,
      Inr [ex_standup_occ, ex_standup_occ])"
  by code_simp

lemma for_events_stop:
  assumes "normalize_event e tz ev = Inr (s, t)" and "date_of s > end_date"
  shows "for_events e tz end_date (pre @ Yield ev # rest) acc = for_events e tz end_date pre acc"
  using assms
proof (induction pre arbitrary: acc)
  case Nil
  then show ?case by simp
next
  case (Cons item pre)
  show ?case
  proof (cases item)
    case (Yield ev')
    then show ?thesis using Cons by (simp split: sum.splits prod.splits)
  next
    case (Raise x)
    then show ?thesis by simp
  qed
qed

text \<open>
  C6. When the sequence reaches an event whose normalized start date lies after the end of
  the window, the loop ends there: the result is the one the events before it give, the
  event is not added, and whatever follows it in the sequence (an element that would
  raise included) has no part in the result.
\<close>

theorem window_filter_stops:
  assumes "normalize_event e tz ev = Inr (s, t)" and "date_of s > end_date"
  shows "for_events e tz end_date (pre @ Yield ev # rest) acc = for_events e tz end_date pre acc
         \<and> for_events e tz end_date (Yield ev # rest) acc = (acc, None)"
  using assms for_events_stop [OF assms, of pre rest acc] by simp

theorem window_filter_stops_witness:
  "normalize_event ex_env ex_zone ex_later =
     Inr (mk_datetime 2024 3 8 9 0 0 0 (Some ex_pst), mk_datetime 2024 3 8 9 0 0 0 (Some ex_pst))
   \<and> date_of (mk_datetime 2024 3 8 9 0 0 0 (Some ex_pst)) > ymd2ord 2024 3 6
   \<and> for_events ex_env ex_zone (ymd2ord 2024 3 6)
       ([Yield ex_standup] @ Yield ex_later # [Raise (LibraryError ''unbounded rule'')]) []
     = ([ex_standup_occ], None)"
proof -
  have n: "normalize_event ex_env ex_zone ex_later =
     Inr (mk_datetime 2024 3 8 9 0 0 0 (Some ex_pst), mk_datetime 2024 3 8 9 0 0 0 (Some ex_pst))"
    by code_simp
  have d: "date_of (mk_datetime 2024 3 8 9 0 0 0 (Some ex_pst)) > ymd2ord 2024 3 6"
    by code_simp
  have p: "for_events ex_env ex_zone (ymd2ord 2024 3 6) [Yield ex_standup] []
             = ([ex_standup_occ], None)"
    by code_simp
  show ?thesis
    using window_filter_stops [OF n d, of "[Yield ex_standup]"
        "[Raise (LibraryError ''unbounded rule'')]" "[]"] n d p
    by simp
qed

subsection \<open>The invariant of emitted occurrences\<close>

lemma astimezone_result:
  assumes "astimezone e tz dt = Inr dt'"
  shows "instant dt' = utc_of e dt"
    and "dt_tzinfo dt' =
           Some \<lparr>tz_name = zone_name tz, tz_utcoffset = zone_utcoffset tz (utc_of e dt)\<rparr>"
  using assms by (auto simp: astimezone_def Let_def instant_def split: if_splits)

lemma normalize_well_timed:
  assumes "normalize_event e tz ev = Inr (s, t)" and "raw_ordered e ev"
  shows "instant s \<le> instant t \<and> aware s \<and> aware t"
proof (cases "DTSTART ev")
  case (DateV d)
  then show ?thesis
    using assms
    by (auto simp: normalize_event_def convert_to_target_def raw_ordered_def all_day_start_def
        all_day_end_def replace_tzinfo_def combine_def instant_def aware_def UTC_def
        US_PER_DAY_def time_min_def time_max_def
        split: option.splits dt_value.splits)
next
  case (DateTimeV s0)
  then show ?thesis
    using assms
    by (auto simp: normalize_event_def convert_to_target_def raw_ordered_def all_day_start_def
        all_day_end_def aware_def astimezone_result
        split: option.splits dt_value.splits sum.splits)
qed

lemma for_events_well_timed:
  assumes "for_events e tz end_date items acc = (fe, x)"
    and "\<forall>ev. Yield ev \<in> set items \<longrightarrow> raw_ordered e ev"
    and "\<forall>ev \<in> set acc. well_timed ev"
  shows "\<forall>ev \<in> set fe. well_timed ev"
  using assms
proof (induction e tz end_date items acc rule: for_events.induct)
  case (1 e tz end_date acc)
  then show ?case by simp
next
  case (2 e tz end_date x rest acc)
  then show ?case by simp
next
  case (3 e tz end_date event rest acc)
  show ?case
  proof (cases "normalize_event e tz event")
    case (Inl y)
    then show ?thesis using 3 by simp
  next
    case (Inr p)
    obtain s t where p: "p = (s, t)" by (cases p)
    show ?thesis
    proof (cases "date_of s > end_date")
      case True
      then show ?thesis using 3 Inr p by simp
    next
      case False
      have wt: "well_timed (make_occurrence event s t)"
        using normalize_well_timed [of e tz event s t] Inr p "3.prems"(2)
        by (simp add: well_timed_def make_occurrence_def)
      show ?thesis
        using "3.IH" [OF Inr p [symmetric] False] "3.prems" Inr p False wt
        by simp
    qed
  qed
qed

lemma handlers_lists:
  "all_events (handlers p st x) = all_events st"
  "filtered_events (handlers p st x) = filtered_events st"
  by (cases x; (cases "the x")?; simp add: handlers_def)+

lemma try_body_lists:
  assumes "try_body e tz cd ed cal st = (st', x)"
  shows "all_events st' = all_events st"
    and "filtered_events st' = filtered_events st
         \<or> (\<exists>items fe. cal cd = Inr items \<and> for_events e tz ed items [] = (fe, x)
               \<and> filtered_events st' = Some fe)"
  using assms by (auto simp: try_body_def split: sum.splits prod.splits)

lemma process_file_well_timed:
  assumes "process_file e tzn st fi = (st', x)"
    and "\<forall>cal d items ev. fi_parse fi = Inr cal \<longrightarrow> cal d = Inr items \<longrightarrow> Yield ev \<in> set items
           \<longrightarrow> raw_ordered e ev"
    and "\<forall>ev \<in> set (all_events st). well_timed ev"
    and "\<forall>fe. filtered_events st = Some fe \<longrightarrow> (\<forall>ev \<in> set fe. well_timed ev)"
  shows "(\<forall>ev \<in> set (all_events st'). well_timed ev)
         \<and> (\<forall>fe. filtered_events st' = Some fe \<longrightarrow> (\<forall>ev \<in> set fe. well_timed ev))"
proof (cases "fi_parse fi")
  case (Inl y)
  then show ?thesis using assms by (auto simp: process_file_def Let_def)
next
  case (Inr cal)
  show ?thesis
  proof (cases "tzdb e tzn")
    case None
    then show ?thesis using assms Inr by (auto simp: process_file_def Let_def)
  next
    case (Some tz)
    define cd where
      "cd = (fi_now fi + zone_utcoffset tz (fi_now fi) * US_PER_SECOND) div US_PER_DAY + 1"
    define st2 where "st2 = st\<lparr>trace := trace st @ [Open (fi_path fi)], alarm := 5\<rparr>"
    obtain st3 y where tb: "try_body e tz cd (cd + DAYS_TO_INCLUDE) cal st2 = (st3, y)"
      by (cases "try_body e tz cd (cd + DAYS_TO_INCLUDE) cal st2")
    have a3: "all_events st3 = all_events st"
      using try_body_lists(1) [OF tb] by (simp add: st2_def)
    have f3: "\<forall>fe. filtered_events st3 = Some fe \<longrightarrow> (\<forall>ev \<in> set fe. well_timed ev)"
    proof (intro allI impI)
      fix fe assume fe: "filtered_events st3 = Some fe"
      from try_body_lists(2) [OF tb]
      show "\<forall>ev \<in> set fe. well_timed ev"
      proof
        assume "filtered_events st3 = filtered_events st2"
        then have "filtered_events st = Some fe" using fe by (simp add: st2_def)
        then show ?thesis using assms(4) by blast
      next
        assume "\<exists>items fe. cal cd = Inr items
                 \<and> for_events e tz (cd + DAYS_TO_INCLUDE) items [] = (fe, y)
                 \<and> filtered_events st3 = Some fe"
        then obtain items fe' where i: "cal cd = Inr items"
          and f: "for_events e tz (cd + DAYS_TO_INCLUDE) items [] = (fe', y)"
          and g: "filtered_events st3 = Some fe'" by blast
        have "\<forall>ev. Yield ev \<in> set items \<longrightarrow> raw_ordered e ev"
          using assms(2) Inr i by blast
        then have "\<forall>ev \<in> set fe'. well_timed ev"
          using for_events_well_timed [OF f] by simp
        then show ?thesis using fe g by simp
      qed
    qed
    have pf: "process_file e tzn st fi =
       (let st5 = (handlers (fi_path fi) st3 y)\<lparr>alarm := 0\<rparr>
        in case filtered_events st5 of
             None \<Rightarrow> (st5, Some UnboundLocalError)
           | Some fe \<Rightarrow> (st5\<lparr>all_events := all_events st5 @ fe\<rparr>, None))"
      using Inr Some tb by (simp add: process_file_def Let_def cd_def st2_def)
    show ?thesis
      using assms(1,3) a3 f3 unfolding pf
      by (auto simp: Let_def handlers_lists split: option.splits)
  qed
qed

lemma for_files_well_timed:
  assumes "for_files e tzn st files = (st', x)"
    and "\<forall>fi \<in> set files. \<forall>cal d items ev. fi_parse fi = Inr cal \<longrightarrow> cal d = Inr items
           \<longrightarrow> Yield ev \<in> set items \<longrightarrow> raw_ordered e ev"
    and "\<forall>ev \<in> set (all_events st). well_timed ev"
    and "\<forall>fe. filtered_events st = Some fe \<longrightarrow> (\<forall>ev \<in> set fe. well_timed ev)"
  shows "\<forall>ev \<in> set (all_events st'). well_timed ev"
  using assms
proof (induction files arbitrary: st)
  case Nil
  then show ?case by simp
next
  case (Cons fi rest)
  obtain st1 y where p: "process_file e tzn st fi = (st1, y)"
    by (cases "process_file e tzn st fi")
  have ok: "(\<forall>ev \<in> set (all_events st1). well_timed ev)
         \<and> (\<forall>fe. filtered_events st1 = Some fe \<longrightarrow> (\<forall>ev \<in> set fe. well_timed ev))"
    using process_file_well_timed [OF p] Cons.prems by simp
  show ?case
  proof (cases y)
    case None
    then have "for_files e tzn st1 rest = (st', x)" using Cons.prems(1) p by simp
    then show ?thesis using Cons.IH [of st1] Cons.prems(2) ok by simp
  next
    case (Some z)
    then show ?thesis using Cons.prems(1) p ok by auto
  qed
qed

text \<open>
  C8, as the code has it. The loop does not compare start and end, so the invariant is
  the one the raw events bring: when every event the expansion yields is ordered (its end
  absent, or of the kind of its start and not earlier), every occurrence the extraction
  returns has its start no later than its end, and both carry a \<^verbatim>\<open>tzinfo\<close>. This
  covers the event without end, the bare date and the zoned or naive point in time.
\<close>

theorem emitted_occurrences_well_timed:
  assumes "\<forall>fi \<in> set files. \<forall>cal d items ev. fi_parse fi = Inr cal \<longrightarrow> cal d = Inr items
           \<longrightarrow> Yield ev \<in> set items \<longrightarrow> raw_ordered e ev"
    and "extract_recurring_events_ics e files tzn = (st, Inr evs)"
  shows "\<forall>ev \<in> set evs. instant (start_time ev) \<le> instant (end_time ev)
           \<and> dt_tzinfo (start_time ev) \<noteq> None \<and> dt_tzinfo (end_time ev) \<noteq> None"
proof -
  obtain st' x where f: "for_files e (default_timezone tzn) init_state files = (st', x)"
    by (cases "for_files e (default_timezone tzn) init_state files")
  have "evs = all_events st'"
    using assms(2) f by (auto simp: extract_recurring_events_ics_def split: option.splits)
  moreover have "\<forall>ev \<in> set (all_events st'). well_timed ev"
    using for_files_well_timed [OF f assms(1)] by (simp add: init_state_def)
  ultimately show ?thesis by (simp add: well_timed_def aware_def)
qed

theorem emitted_occurrences_well_timed_witness:
  "raw_ordered ex_env ex_offsite \<and> raw_ordered ex_env ex_standup
   \<and> snd (extract_recurring_events_ics ex_env [ex_file_two] []) =
       Inr [ex_offsite_occ, ex_standup_occ]
   \<and> instant (start_time ex_offsite_occ) \<le> instant (end_time ex_offsite_occ)
   \<and> dt_tzinfo (start_time ex_offsite_occ) \<noteq> None \<and> dt_tzinfo (end_time ex_offsite_occ) \<noteq> None
   \<and> instant (start_time ex_standup_occ) \<le> instant (end_time ex_standup_occ)
   \<and> dt_tzinfo (start_time ex_standup_occ) \<noteq> None \<and> dt_tzinfo (end_time ex_standup_occ) \<noteq> None"
proof -
  have r: "raw_ordered ex_env ex_offsite" "raw_ordered ex_env ex_standup"
    by code_simp+
  have h: "\<forall>fi \<in> set [ex_file_two]. \<forall>cal d items ev. fi_parse fi = Inr cal \<longrightarrow> cal d = Inr items
           \<longrightarrow> Yield ev \<in> set items \<longrightarrow> raw_ordered ex_env ev"
    using r by (auto simp: ex_file_two_def)
  have x: "extract_recurring_events_ics ex_env [ex_file_two] [] =
     (\<lparr>all_events = [ex_offsite_occ, ex_standup_occ],
       filtered_events = Some [ex_offsite_occ, ex_standup_occ],
       alarm = 0, trace = [Open ''two.ics'']\<rparr>,
      Inr [ex_offsite_occ, ex_standup_occ])"
    by code_simp
  show ?thesis
    using emitted_occurrences_well_timed [OF h x] r x by simp
qed

text \<open>
  C8 as stated fails: an event whose end date lies before its start date is emitted as it
  comes, with its start after its end.
\<close>

theorem reversed_event_counterexample:
  "extract_recurring_events_ics ex_env [ex_file_reversed] [] =
     (\<lparr>all_events = [ex_reversed_occ], filtered_events = Some [ex_reversed_occ],
       alarm = 0, trace = [Open ''c.ics'']\<rparr>,
      Inr [ex_reversed_occ])
   \<and> instant (end_time ex_reversed_occ) < instant (start_time ex_reversed_occ)"
  by code_simp

subsection \<open>Files that cannot be read\<close>

lemma for_files_append:
  "for_files e tzn st (xs @ ys) =
     (case for_files e tzn st xs of
        (st', None) \<Rightarrow> for_files e tzn st' ys
      | (st', Some x) \<Rightarrow> (st', Some x))"
  by (induction xs arbitrary: st) (auto split: prod.splits option.splits)

lemma process_file_unreadable:
  "fi_parse fi = Inl x \<Longrightarrow>
   process_file e tzn st fi = (st\<lparr>trace := trace st @ [Open (fi_path fi)]\<rparr>, Some x)"
  by (simp add: process_file_def Let_def)

text \<open>
  C2, as the code has it. Reading and parsing a file (lines 82 to 86) happen outside
  \<^verbatim>\<open>try\<close>: when the files before it went through and a file cannot be read or
  parsed, its exception leaves the function. The run ends there with that exception, no
  list is returned, nothing is printed for the file and the files after it are not opened.
\<close>

theorem unreadable_file_aborts_run:
  assumes "for_files e (default_timezone tzn) init_state pre = (st, None)"
    and "fi_parse fi = Inl x"
  shows "extract_recurring_events_ics e (pre @ fi # post) tzn =
           (st\<lparr>trace := trace st @ [Open (fi_path fi)]\<rparr>, Inl x)"
  using assms
  by (simp add: extract_recurring_events_ics_def for_files_append process_file_unreadable)

theorem unreadable_file_aborts_run_witness:
  "for_files ex_env (default_timezone []) init_state [ex_file_a] =
     (\<lparr>all_events = [ex_standup_occ], filtered_events = Some [ex_standup_occ], alarm = 0,
       trace = [Open ''a.ics'']\<rparr>, None)
   \<and> fi_parse ex_file_missing = Inl OSError
   \<and> extract_recurring_events_ics ex_env ([ex_file_a] @ ex_file_missing # [ex_file_two]) [] =
       (\<lparr>all_events = [ex_standup_occ], filtered_events = Some [ex_standup_occ], alarm = 0,
         trace = [Open ''a.ics'', Open ''missing.ics'']\<rparr>, Inl OSError)"
proof -
  have a: "for_files ex_env (default_timezone []) init_state [ex_file_a] =
     (\<lparr>all_events = [ex_standup_occ], filtered_events = Some [ex_standup_occ], alarm = 0,
       trace = [Open ''a.ics'']\<rparr>, None)"
    by code_simp
  have b: "fi_parse ex_file_missing = Inl OSError"
    by (simp add: ex_file_missing_def)
  show ?thesis
    using unreadable_file_aborts_run [OF a b, of "[ex_file_two]"] a b
    by (simp add: ex_file_missing_def)
qed

text \<open>
  C2 as stated fails: with an unreadable first file the run does not go on to the second
  file; it ends with the exception of \<^verbatim>\<open>open\<close>.
\<close>

theorem unreadable_file_counterexample:
  "extract_recurring_events_ics ex_env [ex_file_missing, ex_file_a] [] =
     (\<lparr>all_events = [], filtered_events = None, alarm = 0, trace = [Open ''missing.ics'']\<rparr>,
      Inl OSError)"
  by code_simp

subsection \<open>A malformed target date\<close>

lemma strptime_raises_ValueError: "strptime_Ymd s = Inl x \<Longrightarrow> x = ValueError"
  by (auto simp: strptime_Ymd_def Let_def split: option.splits list.splits if_splits prod.splits)

text \<open>
  C7, as the code has it. The date is parsed in \<^verbatim>\<open>filter_events_by_date\<close>, which
  the script calls after the extraction: with a date that \<^verbatim>\<open>strptime\<close> rejects, the
  run first opens, expands and filters every file (its trace is the whole trace of the
  extraction) and then ends with \<^verbatim>\<open>ValueError\<close>, or with the exception of the
  extraction if that one failed; no output file is written.
\<close>

theorem malformed_date_fails_after_extraction:
  assumes "\<forall>ymd. strptime_Ymd date \<noteq> Inr ymd"
    and "extract_recurring_events_ics e ics_files timezone = (st, r)"
  shows "main e gpt out ics_files date timezone output =
           (trace st, Some (case r of Inl x \<Rightarrow> x | Inr evs \<Rightarrow> ValueError))"
proof (cases r)
  case (Inl x)
  then show ?thesis using assms(2) by (simp add: main_def)
next
  case (Inr evs)
  obtain x where "strptime_Ymd date = Inl x"
    using assms(1) by (cases "strptime_Ymd date") auto
  then have "strptime_Ymd date = Inl ValueError"
    using strptime_raises_ValueError by blast
  then show ?thesis using assms(2) Inr by (simp add: main_def filter_events_by_date_def)
qed

theorem malformed_date_fails_after_extraction_witness:
  "strptime_Ymd ''2024-13-01'' = Inl ValueError
   \<and> extract_recurring_events_ics ex_env [ex_file_two] [] =
       (\<lparr>all_events = [ex_offsite_occ, ex_standup_occ],
         filtered_events = Some [ex_offsite_occ, ex_standup_occ],
         alarm = 0, trace = [Open ''two.ics'']\<rparr>,
        Inr [ex_offsite_occ, ex_standup_occ])
   \<and> main ex_env ex_gpt_down ex_outside [ex_file_two] ''2024-13-01'' [] ''out'' =
       ([Open ''two.ics''], Some ValueError)"
proof -
  have a: "strptime_Ymd ''2024-13-01'' = Inl ValueError"
    by code_simp
  then have h: "\<forall>ymd. strptime_Ymd ''2024-13-01'' \<noteq> Inr ymd"
    by simp
  have x: "extract_recurring_events_ics ex_env [ex_file_two] [] =
       (\<lparr>all_events = [ex_offsite_occ, ex_standup_occ],
         filtered_events = Some [ex_offsite_occ, ex_standup_occ],
         alarm = 0, trace = [Open ''two.ics'']\<rparr>,
        Inr [ex_offsite_occ, ex_standup_occ])"
    by code_simp
  show ?thesis
    using malformed_date_fails_after_extraction [OF h x, of ex_gpt_down ex_outside "''out''"] a x
    by simp
qed

text \<open>
  C7 as stated fails: with the argument \<^verbatim>\<open>05/03/2024\<close> both files are opened and
  processed, and the warning for the second one is printed, before the run ends.
\<close>

theorem malformed_date_counterexample:
  "main ex_env ex_gpt_down ex_outside [ex_file_a, ex_file_slow] ''05/03/2024'' [] ''out'' =
     ([Open ''a.ics'', Open ''b.ics'', Print_timeout ''b.ics''], Some ValueError)"
  by code_simp

subsection \<open>Normalization\<close>

lemma wall_div_mod:
  fixes k n t :: int
  assumes "0 \<le> t" and "t < n"
  shows "(k * n + t) div n = k" and "(k * n + t) mod n = t"
  using assms by simp_all

lemma day_begin:
  "date_of \<lparr>dt_wall = (d - 1) * US_PER_DAY + time_min, dt_tzinfo = z\<rparr> = d"
  "time_of \<lparr>dt_wall = (d - 1) * US_PER_DAY + time_min, dt_tzinfo = z\<rparr> = time_min"
  using wall_div_mod [of time_min US_PER_DAY "d - 1"]
  by (simp_all add: date_of_def time_of_def US_PER_DAY_def time_min_def)

lemma day_end:
  "date_of \<lparr>dt_wall = (d - 1) * US_PER_DAY + time_max, dt_tzinfo = z\<rparr> = d"
  "time_of \<lparr>dt_wall = (d - 1) * US_PER_DAY + time_max, dt_tzinfo = z\<rparr> = time_max"
  using wall_div_mod [of time_max US_PER_DAY "d - 1"]
  by (simp_all add: date_of_def time_of_def US_PER_DAY_def time_max_def)

lemma astimezone_convertible:
  "convertible e tz dt \<Longrightarrow>
   astimezone e tz dt =
     Inr \<lparr>dt_wall = utc_of e dt + zone_utcoffset tz (utc_of e dt) * US_PER_SECOND,
          dt_tzinfo = Some \<lparr>tz_name = zone_name tz,
                             tz_utcoffset = zone_utcoffset tz (utc_of e dt)\<rparr>\<rparr>"
  by (simp add: convertible_def astimezone_def Let_def)

text \<open>
  C3. For an event whose start is a bare date \<open>d\<close> and whose end is absent (then \<open>d' = d\<close>)
  or the date \<open>d'\<close>, normalization succeeds: the start is \<open>d\<close> at 00:00:00 and the end
  is \<open>d'\<close> at 23:59:59.999999, both with the \<^verbatim>\<open>tzinfo\<close> UTC. For an event whose
  start is the point in time \<open>s0\<close> and whose end is absent (then \<open>t0 = s0\<close>) or the point
  in time \<open>t0\<close>, both within the years the conversion can represent, normalization
  succeeds: start and end denote the same instants as \<open>s0\<close> and \<open>t0\<close> and carry the
  target zone with the offset in force there.
\<close>

theorem normalize_event_shapes:
  "(DTSTART ev = DateV d \<and> (DTEND ev = None \<and> d' = d \<or> DTEND ev = Some (DateV d')) \<longrightarrow>
      (case normalize_event e tz ev of
         Inl x \<Rightarrow> False
       | Inr (s, t) \<Rightarrow>
           date_of s = d \<and> time_of s = time_min \<and> dt_tzinfo s = Some UTC
           \<and> date_of t = d' \<and> time_of t = time_max \<and> dt_tzinfo t = Some UTC))
   \<and> (DTSTART ev = DateTimeV s0
        \<and> (DTEND ev = None \<and> t0 = s0 \<or> DTEND ev = Some (DateTimeV t0))
        \<and> convertible e tz s0 \<and> convertible e tz t0 \<longrightarrow>
      (case normalize_event e tz ev of
         Inl x \<Rightarrow> False
       | Inr (s, t) \<Rightarrow>
           instant s = utc_of e s0
           \<and> dt_tzinfo s = Some \<lparr>tz_name = zone_name tz,
                                  tz_utcoffset = zone_utcoffset tz (utc_of e s0)\<rparr>
           \<and> instant t = utc_of e t0
           \<and> dt_tzinfo t = Some \<lparr>tz_name = zone_name tz,
                                  tz_utcoffset = zone_utcoffset tz (utc_of e t0)\<rparr>))"
proof (intro conjI impI)
  assume a: "DTSTART ev = DateV d \<and> (DTEND ev = None \<and> d' = d \<or> DTEND ev = Some (DateV d'))"
  then have "normalize_event e tz ev =
      Inr (\<lparr>dt_wall = (d - 1) * US_PER_DAY + time_min, dt_tzinfo = Some UTC\<rparr>,
           \<lparr>dt_wall = (d' - 1) * US_PER_DAY + time_max, dt_tzinfo = Some UTC\<rparr>)"
    by (auto simp: normalize_event_def convert_to_target_def all_day_start_def all_day_end_def
        replace_tzinfo_def combine_def)
  then show "case normalize_event e tz ev of
         Inl x \<Rightarrow> False
       | Inr (s, t) \<Rightarrow>
           date_of s = d \<and> time_of s = time_min \<and> dt_tzinfo s = Some UTC
           \<and> date_of t = d' \<and> time_of t = time_max \<and> dt_tzinfo t = Some UTC"
    by (simp add: day_begin day_end)
next
  assume a: "DTSTART ev = DateTimeV s0
        \<and> (DTEND ev = None \<and> t0 = s0 \<or> DTEND ev = Some (DateTimeV t0))
        \<and> convertible e tz s0 \<and> convertible e tz t0"
  then have "normalize_event e tz ev =
      Inr (\<lparr>dt_wall = utc_of e s0 + zone_utcoffset tz (utc_of e s0) * US_PER_SECOND,
            dt_tzinfo = Some \<lparr>tz_name = zone_name tz,
                               tz_utcoffset = zone_utcoffset tz (utc_of e s0)\<rparr>\<rparr>,
           \<lparr>dt_wall = utc_of e t0 + zone_utcoffset tz (utc_of e t0) * US_PER_SECOND,
            dt_tzinfo = Some \<lparr>tz_name = zone_name tz,
                               tz_utcoffset = zone_utcoffset tz (utc_of e t0)\<rparr>\<rparr>)"
    by (auto simp: normalize_event_def convert_to_target_def all_day_start_def all_day_end_def
        astimezone_convertible)
  then show "case normalize_event e tz ev of
         Inl x \<Rightarrow> False
       | Inr (s, t) \<Rightarrow>
           instant s = utc_of e s0
           \<and> dt_tzinfo s = Some \<lparr>tz_name = zone_name tz,
                                  tz_utcoffset = zone_utcoffset tz (utc_of e s0)\<rparr>
           \<and> instant t = utc_of e t0
           \<and> dt_tzinfo t = Some \<lparr>tz_name = zone_name tz,
                                  tz_utcoffset = zone_utcoffset tz (utc_of e t0)\<rparr>"
    by (simp add: instant_def)
qed

theorem normalize_event_shapes_witness:
  "DTSTART ex_offsite = DateV (ymd2ord 2024 3 5) \<and> DTEND ex_offsite = None
   \<and> normalize_event ex_env ex_zone ex_offsite =
       Inr (mk_datetime 2024 3 5 0 0 0 0 (Some UTC), mk_datetime 2024 3 5 23 59 59 999999 (Some UTC))
   \<and> date_of (mk_datetime 2024 3 5 0 0 0 0 (Some UTC)) = ymd2ord 2024 3 5
   \<and> time_of (mk_datetime 2024 3 5 0 0 0 0 (Some UTC)) = time_min
   \<and> date_of (mk_datetime 2024 3 5 23 59 59 999999 (Some UTC)) = ymd2ord 2024 3 5
   \<and> time_of (mk_datetime 2024 3 5 23 59 59 999999 (Some UTC)) = time_max
   \<and> DTSTART ex_standup = DateTimeV (mk_datetime 2024 3 5 17 0 0 0 (Some UTC))
   \<and> DTEND ex_standup = Some (DateTimeV (mk_datetime 2024 3 5 17 30 0 0 (Some UTC)))
   \<and> convertible ex_env ex_zone (mk_datetime 2024 3 5 17 0 0 0 (Some UTC))
   \<and> convertible ex_env ex_zone (mk_datetime 2024 3 5 17 30 0 0 (Some UTC))
   \<and> normalize_event ex_env ex_zone ex_standup =
       Inr (mk_datetime 2024 3 5 9 0 0 0 (Some ex_pst), mk_datetime 2024 3 5 9 30 0 0 (Some ex_pst))
   \<and> instant (mk_datetime 2024 3 5 9 0 0 0 (Some ex_pst)) =
       utc_of ex_env (mk_datetime 2024 3 5 17 0 0 0 (Some UTC))
   \<and> instant (mk_datetime 2024 3 5 9 30 0 0 (Some ex_pst)) =
       utc_of ex_env (mk_datetime 2024 3 5 17 30 0 0 (Some UTC))"
proof -
  have a: "DTSTART ex_offsite = DateV (ymd2ord 2024 3 5)" "DTEND ex_offsite = None"
    by (simp_all add: ex_offsite_def)
  have n: "normalize_event ex_env ex_zone ex_offsite =
       Inr (mk_datetime 2024 3 5 0 0 0 0 (Some UTC), mk_datetime 2024 3 5 23 59 59 999999 (Some UTC))"
    by code_simp
  have b: "DTSTART ex_standup = DateTimeV (mk_datetime 2024 3 5 17 0 0 0 (Some UTC))"
    "DTEND ex_standup = Some (DateTimeV (mk_datetime 2024 3 5 17 30 0 0 (Some UTC)))"
    by (simp_all add: ex_standup_def)
  have c: "convertible ex_env ex_zone (mk_datetime 2024 3 5 17 0 0 0 (Some UTC))"
    "convertible ex_env ex_zone (mk_datetime 2024 3 5 17 30 0 0 (Some UTC))"
    by code_simp+
  have m: "normalize_event ex_env ex_zone ex_standup =
       Inr (mk_datetime 2024 3 5 9 0 0 0 (Some ex_pst), mk_datetime 2024 3 5 9 30 0 0 (Some ex_pst))"
    by code_simp
  show ?thesis
    using normalize_event_shapes [where ev = ex_offsite and d = "ymd2ord 2024 3 5"
        and d' = "ymd2ord 2024 3 5" and e = ex_env and tz = ex_zone]
      normalize_event_shapes [where ev = ex_standup and e = ex_env and tz = ex_zone
        and ?s0.0 = "mk_datetime 2024 3 5 17 0 0 0 (Some UTC)"
        and ?t0.0 = "mk_datetime 2024 3 5 17 30 0 0 (Some UTC)"]
      a n b c m
    by simp
qed

subsection \<open>The digest\<close>

lemma summarize_returns:
  "summarize_with_gpt c t n = Inr (projr (summarize_with_gpt c t n))"
  by (simp add: summarize_with_gpt_def split: sum.splits)

lemma for_digest_eq:
  "for_digest gpt k events ad te = Inr
     (ad @ map (\<lambda>(i, ev). projr (summarize_with_gpt (gpt i) (title ev) 22))
            (filter (\<lambda>(i, ev). time_of (start_time ev) = time_min \<and> time_of (end_time ev) = time_max)
               (enumerate k events)),
      te @ map (\<lambda>(i, ev). strftime_HM (start_time ev) @ '' '' @ projr (summarize_with_gpt (gpt i) (title ev) 16))
            (filter (\<lambda>(i, ev). \<not> (time_of (start_time ev) = time_min \<and> time_of (end_time ev) = time_max))
               (enumerate k events)))"
proof (induction events arbitrary: k ad te)
  case Nil
  then show ?case by simp
next
  case (Cons ev rest)
  obtain a where a: "summarize_with_gpt (gpt k) (title ev) 22 = Inr a"
    using summarize_returns by blast
  obtain b where b: "summarize_with_gpt (gpt k) (title ev) 16 = Inr b"
    using summarize_returns by blast
  show ?case
  proof (cases "time_of (start_time ev) = time_min \<and> time_of (end_time ev) = time_max")
    case True
    then show ?thesis using a by (simp add: Cons.IH)
  next
    case False
    then show ?thesis using b by (auto simp: Cons.IH)
  qed
qed

lemma digit_char_nat:
  assumes "0 \<le> a" and "a \<le> 9"
  shows "(of_char (digit_char a) :: nat) = 48 + nat a"
proof -
  from assms have "a = 0 \<or> a = 1 \<or> a = 2 \<or> a = 3 \<or> a = 4 \<or> a = 5 \<or> a = 6 \<or> a = 7 \<or> a = 8 \<or> a = 9"
    by arith
  then show ?thesis by (auto simp: digit_char_def)
qed

lemma digit_char_less:
  assumes "0 \<le> a" "a \<le> 9" "0 \<le> b" "b \<le> 9"
  shows "digit_char a < digit_char b \<longleftrightarrow> a < b"
  using assms by (auto simp: less_char_def digit_char_nat)

lemma digit_char_eq:
  assumes "0 \<le> a" "a \<le> 9" "0 \<le> b" "b \<le> 9"
  shows "digit_char a = digit_char b \<longleftrightarrow> a = b"
proof
  assume "digit_char a = digit_char b"
  then have "(of_char (digit_char a) :: nat) = of_char (digit_char b)" by simp
  then show "a = b" using assms by (simp add: digit_char_nat)
qed simp

lemma pad2_less:
  assumes "0 \<le> x" "x < y" "y \<le> 99"
  shows "pad2 x @ r < pad2 y @ r'"
proof -
  have b: "0 \<le> x div 10" "x div 10 \<le> 9" "0 \<le> x mod 10" "x mod 10 \<le> 9"
    "0 \<le> y div 10" "y div 10 \<le> 9" "0 \<le> y mod 10" "y mod 10 \<le> 9"
    using assms by auto
  have c: "x div 10 < y div 10 \<or> (x div 10 = y div 10 \<and> x mod 10 < y mod 10)"
    using assms by presburger
  show ?thesis
    using c by (auto simp: pad2_def digit_char_less [OF b(1,2,5,6)] digit_char_less [OF b(3,4,7,8)])
qed

lemma hour_minute_bounds:
  "0 \<le> hour_of dt" "hour_of dt \<le> 23" "0 \<le> minute_of dt" "minute_of dt \<le> 59"
proof -
  have "0 \<le> time_of dt" "time_of dt < 86400000000"
    by (simp_all add: time_of_def US_PER_DAY_def)
  then show "0 \<le> hour_of dt" "hour_of dt \<le> 23"
    by (simp_all add: hour_of_def)
  show "0 \<le> minute_of dt" "minute_of dt \<le> 59"
    by (simp_all add: minute_of_def)
qed

lemma entry_less:
  assumes "hour_of a * 60 + minute_of a < hour_of b * 60 + minute_of b"
  shows "strftime_HM a @ '' '' @ s < strftime_HM b @ '' '' @ s'"
proof -
  note ba = hour_minute_bounds [of a] and bb = hour_minute_bounds [of b]
  have "hour_of a < hour_of b \<or> (hour_of a = hour_of b \<and> minute_of a < minute_of b)"
    using assms ba bb by arith
  then show ?thesis
  proof
    assume h: "hour_of a < hour_of b"
    show ?thesis
      using pad2_less [of "hour_of a" "hour_of b"] h ba bb
      by (simp add: strftime_HM_def)
  next
    assume h: "hour_of a = hour_of b \<and> minute_of a < minute_of b"
    have "pad2 (minute_of a) @ '' '' @ s < pad2 (minute_of b) @ '' '' @ s'"
      using pad2_less [of "minute_of a" "minute_of b"] h ba bb by simp
    then show ?thesis
      using h by (simp add: strftime_HM_def pad2_def)
  qed
qed

lemma sort_map_key: "sort (map f xs) = map f (sort_key f xs)"
proof (induction xs)
  case Nil
  then show ?case by simp
next
  case (Cons x xs)
  have "insort (f x) (map f ys) = map f (insort_key f x ys)" for ys
    by (induction ys) simp_all
  then show ?case using Cons by simp
qed


lemma re2_Some:
  assumes "re2 p q s = Some (m, r)"
  shows "\<exists>a b. m = [a, b] \<and> s = a # b # r \<and> p a \<and> q b"
  using assms by (cases "(p, q, s)" rule: re2.cases) (auto split: if_splits)

lemma re1_Some:
  assumes "re1 p s = Some (m, r)"
  shows "\<exists>a. m = [a] \<and> s = a # r \<and> p a"
  using assms by (cases "(p, s)" rule: re1.cases) (auto split: if_splits)

lemma cls_nat: "cls lo hi c \<longleftrightarrow> (of_char lo :: nat) \<le> of_char c \<and> (of_char c :: nat) \<le> of_char hi"
  by (simp add: cls_def less_eq_char_def)

lemma py_int_2: "a \<noteq> CHR '' '' \<Longrightarrow> py_int [a, b] = (int (of_char a) - 48) * 10 + (int (of_char b) - 48)"
  by (simp add: py_int_def)

lemma py_int_1: "a \<noteq> CHR '' '' \<Longrightarrow> py_int [a] = int (of_char a) - 48"
  by (simp add: py_int_def)

lemma py_int_sp: "b \<noteq> CHR '' '' \<Longrightarrow> py_int [CHR '' '', b] = int (of_char b) - 48"
  by (simp add: py_int_def)

lemma not_space: "(49::nat) \<le> of_char c \<Longrightarrow> c \<noteq> CHR '' ''"
  by auto

lemma re_m_range:
  assumes "re_m s = Some (ms, r)"
  shows "1 \<le> py_int ms \<and> py_int ms \<le> 12"
proof -
  consider "re2 (\<lambda>c. c = CHR ''1'') (cls (CHR ''0'') (CHR ''2'')) s = Some (ms, r)"
    | "re2 (\<lambda>c. c = CHR ''0'') (cls (CHR ''1'') (CHR ''9'')) s = Some (ms, r)"
    | "re1 (cls (CHR ''1'') (CHR ''9'')) s = Some (ms, r)"
    using assms by (auto simp: re_m_def split: option.splits)
  then show ?thesis
  proof cases
    case 1
    then obtain b where "ms = [CHR ''1'', b]" "cls (CHR ''0'') (CHR ''2'') b"
      using re2_Some by blast
    then show ?thesis by (simp add: py_int_2 cls_nat)
  next
    case 2
    then obtain b where "ms = [CHR ''0'', b]" "cls (CHR ''1'') (CHR ''9'') b"
      using re2_Some by blast
    then show ?thesis by (simp add: py_int_2 cls_nat)
  next
    case 3
    then obtain a where "ms = [a]" "cls (CHR ''1'') (CHR ''9'') a"
      using re1_Some by blast
    then show ?thesis using not_space [of a] by (simp add: py_int_1 cls_nat)
  qed
qed

lemma re_d_range:
  assumes "re_d s = Some (ds, r)"
  shows "1 \<le> py_int ds \<and> py_int ds \<le> 31"
proof -
  consider "re2 (\<lambda>c. c = CHR ''3'') (cls (CHR ''0'') (CHR ''1'')) s = Some (ds, r)"
    | "re2 (cls (CHR ''1'') (CHR ''2'')) digit s = Some (ds, r)"
    | "re2 (\<lambda>c. c = CHR ''0'') (cls (CHR ''1'') (CHR ''9'')) s = Some (ds, r)"
    | "re1 (cls (CHR ''1'') (CHR ''9'')) s = Some (ds, r)"
    | "re2 (\<lambda>c. c = CHR '' '') (cls (CHR ''1'') (CHR ''9'')) s = Some (ds, r)"
    using assms by (auto simp: re_d_def split: option.splits)
  then show ?thesis
  proof cases
    case 1
    then obtain b where "ds = [CHR ''3'', b]" "cls (CHR ''0'') (CHR ''1'') b"
      using re2_Some by blast
    then show ?thesis by (simp add: py_int_2 cls_nat)
  next
    case 2
    then obtain a b where "ds = [a, b]" "cls (CHR ''1'') (CHR ''2'') a" "digit b"
      using re2_Some by blast
    then show ?thesis using not_space [of a] by (simp add: py_int_2 cls_nat digit_def)
  next
    case 3
    then obtain b where "ds = [CHR ''0'', b]" "cls (CHR ''1'') (CHR ''9'') b"
      using re2_Some by blast
    then show ?thesis by (simp add: py_int_2 cls_nat)
  next
    case 4
    then obtain a where "ds = [a]" "cls (CHR ''1'') (CHR ''9'') a"
      using re1_Some by blast
    then show ?thesis using not_space [of a] by (simp add: py_int_1 cls_nat)
  next
    case 5
    then obtain b where "ds = [CHR '' '', b]" "cls (CHR ''1'') (CHR ''9'') b"
      using re2_Some by blast
    then show ?thesis using not_space [of b] by (simp add: py_int_sp cls_nat)
  qed
qed

lemma strptime_fields:
  assumes "strptime_Ymd s = Inr (y, m, d)"
  shows "1 \<le> m \<and> m \<le> 12 \<and> 1 \<le> d \<and> d \<le> 31"
  using assms re_m_range re_d_range
  by (auto simp: strptime_Ymd_def Let_def split: option.splits list.splits if_splits prod.splits)

lemma upper_month:
  assumes "1 \<le> m" and "m \<le> 12"
  shows "py_upper (month_name m) =
     [''JANUARY'', ''FEBRUARY'', ''MARCH'', ''APRIL'', ''MAY'', ''JUNE'', ''JULY'',
      ''AUGUST'', ''SEPTEMBER'', ''OCTOBER'', ''NOVEMBER'', ''DECEMBER''] ! nat (m - 1)"
proof -
  from assms have "m = 1 \<or> m = 2 \<or> m = 3 \<or> m = 4 \<or> m = 5 \<or> m = 6 \<or> m = 7 \<or> m = 8
     \<or> m = 9 \<or> m = 10 \<or> m = 11 \<or> m = 12" by arith
  then show ?thesis by (auto simp: py_upper_def month_name_def)
qed

lemma upper_digit:
  assumes "0 \<le> a" and "a \<le> 9"
  shows "py_upper [digit_char a] = [digit_char a]"
proof -
  from assms have "a = 0 \<or> a = 1 \<or> a = 2 \<or> a = 3 \<or> a = 4 \<or> a = 5 \<or> a = 6 \<or> a = 7 \<or> a = 8 \<or> a = 9"
    by arith
  then show ?thesis by (auto simp: digit_char_def py_upper_def)
qed

lemma upper_append: "py_upper (xs @ ys) = py_upper xs @ py_upper ys"
  by (simp add: py_upper_def)

lemma upper_pad2:
  assumes "0 \<le> d" and "d \<le> 99"
  shows "py_upper (pad2 d) = pad2 d"
proof -
  have "pad2 d = [digit_char (d div 10)] @ [digit_char (d mod 10)]"
    by (simp add: pad2_def)
  moreover have "0 \<le> d div 10" "d div 10 \<le> 9" "0 \<le> d mod 10" "d mod 10 \<le> 9"
    using assms by auto
  ultimately show ?thesis
    by (simp only: upper_append upper_digit)
qed

lemma header_upper:
  assumes "strptime_Ymd s = Inr (y, m, d)"
  shows "py_upper (strftime_Bd (y, m, d)) =
     [''JANUARY'', ''FEBRUARY'', ''MARCH'', ''APRIL'', ''MAY'', ''JUNE'', ''JULY'',
      ''AUGUST'', ''SEPTEMBER'', ''OCTOBER'', ''NOVEMBER'', ''DECEMBER''] ! nat (m - 1)
     @ '' '' @ pad2 d"
proof -
  have f: "1 \<le> m" "m \<le> 12" "0 \<le> d" "d \<le> 99"
    using strptime_fields [OF assms] by auto
  have sp: "py_upper '' '' = '' ''" by (simp add: py_upper_def)
  have "py_upper (strftime_Bd (y, m, d)) =
          py_upper (month_name m) @ py_upper '' '' @ py_upper (pad2 d)"
    by (simp only: strftime_Bd_def prod.case upper_append)
  then show ?thesis
    by (simp only: sp upper_month [OF f(1,2)] upper_pad2 [OF f(3,4)])
qed

text \<open>
  C4. The loop of the formatter puts an occurrence on the all-day list exactly when the
  time of day of its start is \<^verbatim>\<open>time.min\<close> and the time of day of its end is
  \<^verbatim>\<open>time.max\<close>, and on the timed list exactly when it is not so: the two lists are
  the renderings of the two complementary selections of the events, in their order.
\<close>

theorem all_day_classification:
  "for_digest gpt k events all_day_events timed_events = Inr
     (all_day_events
        @ map (\<lambda>(i, ev). projr (summarize_with_gpt (gpt i) (title ev) 22))
            (filter (\<lambda>(i, ev). time_of (start_time ev) = time_min
                                \<and> time_of (end_time ev) = time_max)
               (enumerate k events)),
      timed_events
        @ map (\<lambda>(i, ev). strftime_HM (start_time ev) @ '' ''
                            @ projr (summarize_with_gpt (gpt i) (title ev) 16))
            (filter (\<lambda>(i, ev). \<not> (time_of (start_time ev) = time_min
                                   \<and> time_of (end_time ev) = time_max))
               (enumerate k events)))"
  by (rule for_digest_eq)

lemma sorted_clock:
  "sorted (map (\<lambda>(i, ev). hour_of (start_time ev) * 60 + minute_of (start_time ev))
     (sort_key (\<lambda>(i :: nat, ev). strftime_HM (start_time ev) @ '' '' @ f i ev) xs))"
proof -
  let ?entry = "\<lambda>(i :: nat, ev). strftime_HM (start_time ev) @ '' '' @ f i ev"
  let ?clock = "\<lambda>(i :: nat, ev). hour_of (start_time ev) * 60 + minute_of (start_time ev)"
  have mono: "?entry p \<le> ?entry q \<Longrightarrow> ?clock p \<le> ?clock q" for p q
  proof (rule ccontr)
    assume le: "?entry p \<le> ?entry q" and "\<not> ?clock p \<le> ?clock q"
    then have "?clock q < ?clock p" by simp
    then have "?entry q < ?entry p"
      using entry_less [of "start_time (snd q)" "start_time (snd p)" "f (fst q) (snd q)" "f (fst p) (snd p)"]
      by (simp add: case_prod_beta)
    then show False using le by simp
  qed
  have "sorted (map ?entry (sort_key ?entry xs))" by (rule sorted_sort_key)
  then have "sorted_wrt (\<lambda>p q. ?entry p \<le> ?entry q) (sort_key ?entry xs)"
    by (simp only: sorted_map)
  then have "sorted_wrt (\<lambda>p q. ?clock p \<le> ?clock q) (sort_key ?entry xs)"
    by (rule sorted_wrt_mono_rel [rotated]) (use mono in blast)
  then show ?thesis by (simp only: sorted_map)
qed

text \<open>
  C5, as the code has it. With a date that \<^verbatim>\<open>strptime\<close> accepts, the digest is the
  header, then the timed entries sorted as strings, then the all-day entries sorted as
  strings; the sorted timed entries come in non-decreasing order of the hour and minute of
  their start as read on its own clock, which is what the zero-padded prefix holds.
  Entries of the same minute are ordered by their text, not by their seconds.
\<close>

theorem timed_section_in_clock_order:
  assumes "strptime_Ymd filter_date = Inr ymd"
  shows "format_events_for_text_file gpt events filter_date = Inr
           (''--- '' @ py_upper (strftime_Bd ymd) @ '' ---'' @ newline
            @ join newline
                (map (\<lambda>(i, ev). strftime_HM (start_time ev) @ '' ''
                                  @ projr (summarize_with_gpt (gpt i) (title ev) 16))
                   (sort_key (\<lambda>(i, ev). strftime_HM (start_time ev) @ '' ''
                                          @ projr (summarize_with_gpt (gpt i) (title ev) 16))
                      (filter (\<lambda>(i, ev). \<not> (time_of (start_time ev) = time_min
                                             \<and> time_of (end_time ev) = time_max))
                         (enumerate 0 events)))
                 @ sort (map (\<lambda>(i, ev). projr (summarize_with_gpt (gpt i) (title ev) 22))
                      (filter (\<lambda>(i, ev). time_of (start_time ev) = time_min
                                          \<and> time_of (end_time ev) = time_max)
                         (enumerate 0 events)))))
         \<and> sorted (map (\<lambda>(i, ev). hour_of (start_time ev) * 60 + minute_of (start_time ev))
              (sort_key (\<lambda>(i, ev). strftime_HM (start_time ev) @ '' ''
                                     @ projr (summarize_with_gpt (gpt i) (title ev) 16))
                 (filter (\<lambda>(i, ev). \<not> (time_of (start_time ev) = time_min
                                        \<and> time_of (end_time ev) = time_max))
                    (enumerate 0 events))))"
proof
  show "format_events_for_text_file gpt events filter_date = Inr
           (''--- '' @ py_upper (strftime_Bd ymd) @ '' ---'' @ newline
            @ join newline
                (map (\<lambda>(i, ev). strftime_HM (start_time ev) @ '' ''
                                  @ projr (summarize_with_gpt (gpt i) (title ev) 16))
                   (sort_key (\<lambda>(i, ev). strftime_HM (start_time ev) @ '' ''
                                          @ projr (summarize_with_gpt (gpt i) (title ev) 16))
                      (filter (\<lambda>(i, ev). \<not> (time_of (start_time ev) = time_min
                                             \<and> time_of (end_time ev) = time_max))
                         (enumerate 0 events)))
                 @ sort (map (\<lambda>(i, ev). projr (summarize_with_gpt (gpt i) (title ev) 22))
                      (filter (\<lambda>(i, ev). time_of (start_time ev) = time_min
                                          \<and> time_of (end_time ev) = time_max)
                         (enumerate 0 events)))))"
    using assms
    by (simp only: format_events_for_text_file_def for_digest_eq [of gpt 0 events "[]" "[]"]
        sum.case prod.case Let_def append_Nil sort_map_key)
next
  show "sorted (map (\<lambda>(i, ev). hour_of (start_time ev) * 60 + minute_of (start_time ev))
              (sort_key (\<lambda>(i, ev). strftime_HM (start_time ev) @ '' ''
                                     @ projr (summarize_with_gpt (gpt i) (title ev) 16))
                 (filter (\<lambda>(i, ev). \<not> (time_of (start_time ev) = time_min
                                        \<and> time_of (end_time ev) = time_max))
                    (enumerate 0 events))))"
    by (rule sorted_clock)
qed

theorem timed_section_in_clock_order_witness:
  "strptime_Ymd ''2024-03-05'' = Inr (2024, 3, 5)
   \<and> format_events_for_text_file ex_gpt_down [ex_standup_occ, ex_run_occ, ex_offsite_occ, ex_lunch_occ]
       ''2024-03-05'' =
       Inr (''--- MARCH 05 ---'' @ newline @ ''07:30 Run'' @ newline @ ''09:00 Standup'' @ newline
            @ ''13:15 Lunch with the w'' @ newline @ ''Team Offsite'')"
proof -
  have a: "strptime_Ymd ''2024-03-05'' = Inr (2024, 3, 5)"
    by code_simp
  have b: "format_events_for_text_file ex_gpt_down
       [ex_standup_occ, ex_run_occ, ex_offsite_occ, ex_lunch_occ] ''2024-03-05'' =
       Inr (''--- MARCH 05 ---'' @ newline @ ''07:30 Run'' @ newline @ ''09:00 Standup'' @ newline
            @ ''13:15 Lunch with the w'' @ newline @ ''Team Offsite'')"
    by code_simp
  from timed_section_in_clock_order [OF a, of ex_gpt_down
      "[ex_standup_occ, ex_run_occ, ex_offsite_occ, ex_lunch_occ]"]
  have "format_events_for_text_file ex_gpt_down
       [ex_standup_occ, ex_run_occ, ex_offsite_occ, ex_lunch_occ] ''2024-03-05'' \<noteq> Inl ValueError"
    by (simp only: conj_imp_eq_imp_imp sum.distinct simp_thms)
  then show ?thesis using a b by simp
qed

text \<open>
  C5 as stated fails: of two events that start in the same minute, the one starting
  twenty seconds later is listed first because its title is smaller.
\<close>

theorem same_minute_counterexample:
  "format_events_for_text_file ex_gpt_down [ex_occ_b, ex_occ_a] ''2024-03-05'' =
     Inr (''--- MARCH 05 ---'' @ newline @ ''09:00 A'' @ newline @ ''09:00 B'')
   \<and> instant (start_time ex_occ_b) < instant (start_time ex_occ_a)"
  by code_simp

text \<open>
  C9. The wrapper never raises, whatever the request does; when the request raises and the
  length is not negative, it returns the first \<^verbatim>\<open>max_length\<close> characters of the raw
  title, a text of at most that length. Hence the loop of the formatter never raises.
\<close>

theorem summarizer_never_raises:
  "summarize_with_gpt create title_text max_length \<noteq> Inl y
   \<and> (create title_text max_length = Inl x \<and> 0 \<le> max_length \<longrightarrow>
        summarize_with_gpt create title_text max_length = Inr (take (nat max_length) title_text)
        \<and> int (length (take (nat max_length) title_text)) \<le> max_length)
   \<and> for_digest gpt k events all_day_events timed_events \<noteq> Inl y"
  using summarize_returns [of "create" title_text max_length]
  by (auto simp: summarize_with_gpt_def py_slice_to_def for_digest_eq)

theorem summarizer_never_raises_witness:
  "ex_gpt_down 0 ''Peninsula Self Defense'' 16 = Inl OSError \<and> (0 :: int) \<le> 16
   \<and> summarize_with_gpt (ex_gpt_down 0) ''Peninsula Self Defense'' 16 = Inr ''Peninsula Self D''
   \<and> int (length ''Peninsula Self D'') \<le> 16"
proof -
  have a: "ex_gpt_down 0 ''Peninsula Self Defense'' 16 = Inl OSError"
    by (simp add: ex_gpt_down_def)
  show ?thesis
    using summarizer_never_raises [of "ex_gpt_down 0" "''Peninsula Self Defense''" 16
        _ OSError] a
    by simp
qed

text \<open>
  C10. For the empty list and a date string that \<^verbatim>\<open>strptime\<close> accepts as year
  \<open>y\<close>, month \<open>m\<close> and day \<open>d\<close>, the digest is the line made of three dashes, the
  name of the month in capitals, the day in two digits and three dashes, followed by one
  newline and nothing else.
\<close>

theorem empty_digest_is_header:
  assumes "strptime_Ymd filter_date = Inr (y, m, d)"
  shows "format_events_for_text_file gpt [] filter_date =
           Inr (''--- ''
                @ [''JANUARY'', ''FEBRUARY'', ''MARCH'', ''APRIL'', ''MAY'', ''JUNE'', ''JULY'',
                   ''AUGUST'', ''SEPTEMBER'', ''OCTOBER'', ''NOVEMBER'', ''DECEMBER'']
                    ! nat (m - 1)
                @ '' '' @ pad2 d @ '' ---'' @ newline)"
  using assms header_upper [OF assms]
  by (simp add: format_events_for_text_file_def)

theorem empty_digest_is_header_witness:
  "strptime_Ymd ''2024-12-25'' = Inr (2024, 12, 25)
   \<and> format_events_for_text_file ex_gpt_down [] ''2024-12-25'' =
       Inr (''--- DECEMBER 25 ---'' @ newline)"
proof -
  have a: "strptime_Ymd ''2024-12-25'' = Inr (2024, 12, 25)"
    by code_simp
  show ?thesis
    using empty_digest_is_header [OF a, of ex_gpt_down] a
    by (simp add: pad2_def digit_char_def)
qed

subsection \<open>Failures while a file is iterated\<close>

text \<open>
  What the per-file guard does keep. Once the query of a file has been built, whatever ends
  the loop over its events (the end of the sequence, \<^verbatim>\<open>break\<close>, the alarm, any other
  exception), the turn does not leave the function: the list built so far for this file is
  appended to the result, the alarm is disarmed, and the matching line is printed.
\<close>

lemma handlers_alarm: "alarm (handlers p st x) = alarm st"
  by (cases x; (cases "the x")?; simp add: handlers_def)+

lemma failure_while_iterating_stays_in_file:
  assumes "fi_parse fi = Inr cal" and "tzdb e tzn = Some tz"
    and "cal ((fi_now fi + zone_utcoffset tz (fi_now fi) * US_PER_SECOND) div US_PER_DAY + 1)
           = Inr items"
    and "for_events e tz
           ((fi_now fi + zone_utcoffset tz (fi_now fi) * US_PER_SECOND) div US_PER_DAY + 1
              + DAYS_TO_INCLUDE) items [] = (fe, x)"
    and "process_file e tzn st fi = (st', y)"
  shows "y = None \<and> all_events st' = all_events st @ fe \<and> filtered_events st' = Some fe
         \<and> alarm st' = 0
         \<and> trace st' = trace st @ [Open (fi_path fi)]
              @ (case x of None \<Rightarrow> []
                 | Some TimeoutError \<Rightarrow> [Print_timeout (fi_path fi)]
                 | Some z \<Rightarrow> [Print_error (fi_path fi) z])"
proof -
  have t: "trace (handlers p s x) = trace s
              @ (case x of None \<Rightarrow> []
                 | Some TimeoutError \<Rightarrow> [Print_timeout p]
                 | Some z \<Rightarrow> [Print_error p z])" for p s
    by (cases x; (cases "the x")?; simp add: handlers_def)+
  show ?thesis
    using assms
    by (auto simp: process_file_def Let_def try_body_def handlers_lists handlers_alarm t)
qed

text \<open>
  When it is the first file whose query cannot be built, \<^verbatim>\<open>filtered_events\<close> is not
  bound at line 157 and the run ends with \<^verbatim>\<open>UnboundLocalError\<close>.
\<close>

lemma first_file_failed_query_aborts:
  "extract_recurring_events_ics ex_env [ex_file_slow, ex_file_a] [] =
     (\<lparr>all_events = [], filtered_events = None, alarm = 0,
       trace = [Open ''b.ics'', Print_timeout ''b.ics'']\<rparr>,
      Inl UnboundLocalError)"
  by code_simp

end
